theory Spec2Isabelle
  imports Complex_Main
begin

section \<open>Values of the two scripts\<close>

text \<open>
  Both scripts compute on Python floats and on numpy arrays of float64. A finite double
  is represented by the real number it denotes, and an operation is exact unless it names
  a rounding function (\<open>carnot_cop_heating_fl\<close> and \<open>float64\<close> below). The special
  values of float64 that the code can produce (the infinities of a division by zero, and
  the not-a-number marker \<open>np.nan\<close>) are constructors of their own.
\<close>

datatype npfloat = Fin real | PInf | NInf | NaN

text \<open>
  A numpy array of any shape: \<open>Item\<close> is a zero-dimensional array, \<open>Axis\<close> adds one
  dimension. \<open>map_ndarray\<close> is the elementwise application of numpy's arithmetic.
\<close>

datatype 'a ndarray = Item 'a | Axis "'a ndarray list"

text \<open>
  The temperature arguments are documented as \<open>float or np.ndarray\<close>; the two differ in
  what a division by zero does, so the model keeps them apart.
\<close>

datatype number = PyFloat real | NdArray "real ndarray"

datatype error = TypeError | ValueError | ZeroDivisionError | LinAlgError

fun items :: "'a ndarray \<Rightarrow> 'a list" where
  "items (Item x) = [x]"
| "items (Axis as) = concat (map items as)"

definition shape :: "'a ndarray \<Rightarrow> unit ndarray" where
  "shape a = map_ndarray (\<lambda>_. ()) a"

text \<open>A one-dimensional array with the given elements, as \<open>np.array([...])\<close> builds it.\<close>

definition np_array :: "'a list \<Rightarrow> 'a ndarray" where
  "np_array xs = Axis (map Item xs)"


section \<open>carnot\_cop.py\<close>

text \<open>\<^verbatim>\<open>return temp_celsius + 273.15\<close>, on a float or elementwise on an array.\<close>

fun celsius_to_kelvin :: "number \<Rightarrow> number" where
  "celsius_to_kelvin (PyFloat temp_celsius) = PyFloat (temp_celsius + 273.15)"
| "celsius_to_kelvin (NdArray temp_celsius) =
     NdArray (map_ndarray (\<lambda>c. c + 273.15) temp_celsius)"

text \<open>
  Division of float64 values in numpy does not raise: a zero divisor gives an infinity
  (or not-a-number for \<open>0 / 0\<close>) and a warning. Division of Python floats raises
  \<open>ZeroDivisionError\<close>.
\<close>

definition np_divide :: "real \<Rightarrow> real \<Rightarrow> npfloat" where
  "np_divide x d =
     (if d = 0 then (if x = 0 then NaN else if 0 < x then PInf else NInf)
      else Fin (x / d))"

definition py_truediv :: "real \<Rightarrow> real \<Rightarrow> error + real" where
  "py_truediv x d = (if d = 0 then Inl ZeroDivisionError else Inr (x / d))"

text \<open>\<open>np.where(c, a, b)\<close> at one element.\<close>

definition np_where :: "bool \<Rightarrow> npfloat \<Rightarrow> npfloat \<Rightarrow> npfloat" where
  "np_where c a b = (if c then a else b)"

text \<open>
  \<^verbatim>\<open>
  delta_T = T_hot_K - T_cold_K
  cop = T_hot_K / delta_T
  return np.where(delta_T <= 0, np.nan, cop)
  \<close>
  \<open>np.where\<close> returns an array also for scalar arguments (a zero-dimensional one).
\<close>

fun carnot_cop_heating :: "real \<Rightarrow> number \<Rightarrow> error + npfloat ndarray" where
  "carnot_cop_heating T_hot_K (PyFloat T_cold_K) =
     (let delta_T = T_hot_K - T_cold_K in
      case py_truediv T_hot_K delta_T of
        Inl e \<Rightarrow> Inl e
      | Inr cop \<Rightarrow> Inr (Item (np_where (delta_T \<le> 0) NaN (Fin cop))))"
| "carnot_cop_heating T_hot_K (NdArray T_cold_K) =
     (let delta_T = map_ndarray (\<lambda>t. T_hot_K - t) T_cold_K in
      Inr (map_ndarray (\<lambda>d. np_where (d \<le> 0) NaN (np_divide T_hot_K d)) delta_T))"

subsection \<open>Rounding\<close>

text \<open>
  The two functions above take the arithmetic of float64 as exact. Where the rounding of
  an operation matters, the operation is its exact result passed through a rounding
  function \<open>fl\<close> from the reals to the float64 values; \<open>carnot_cop_heating\<close> is the
  instance \<open>fl = Fin\<close> of \<open>carnot_cop_heating_fl\<close> below.

  \<open>np_le x y\<close> is the comparison \<open>x <= y\<close> of float64 values, false when either is
  not-a-number.
\<close>

fun np_le :: "npfloat \<Rightarrow> npfloat \<Rightarrow> bool" where
  "np_le (Fin x) (Fin y) = (x \<le> y)"
| "np_le (Fin x) PInf = True"
| "np_le (Fin x) NInf = False"
| "np_le NInf (Fin y) = True"
| "np_le NInf PInf = True"
| "np_le NInf NInf = True"
| "np_le PInf PInf = True"
| "np_le PInf (Fin y) = False"
| "np_le PInf NInf = False"
| "np_le NaN y = False"
| "np_le x NaN = False"

text \<open>
  Division of a finite value by a float64 value: by zero as before, by an infinity it
  gives zero, and the quotient by a finite divisor is rounded.
\<close>

definition np_divide_fl :: "(real \<Rightarrow> npfloat) \<Rightarrow> real \<Rightarrow> npfloat \<Rightarrow> npfloat" where
  "np_divide_fl fl x d =
     (case d of
        Fin v \<Rightarrow> (if v = 0 then (if x = 0 then NaN else if 0 < x then PInf else NInf)
                  else fl (x / v))
      | PInf \<Rightarrow> Fin 0
      | NInf \<Rightarrow> Fin 0
      | NaN \<Rightarrow> NaN)"

definition py_truediv_fl :: "(real \<Rightarrow> npfloat) \<Rightarrow> real \<Rightarrow> npfloat \<Rightarrow> error + npfloat" where
  "py_truediv_fl fl x d = (if d = Fin 0 then Inl ZeroDivisionError else Inr (np_divide_fl fl x d))"

text \<open>
  The source of \<open>carnot_cop_heating\<close> again, with the subtraction and the division
  rounded.
\<close>

fun carnot_cop_heating_fl ::
  "(real \<Rightarrow> npfloat) \<Rightarrow> real \<Rightarrow> number \<Rightarrow> error + npfloat ndarray" where
  "carnot_cop_heating_fl fl T_hot_K (PyFloat T_cold_K) =
     (let delta_T = fl (T_hot_K - T_cold_K) in
      case py_truediv_fl fl T_hot_K delta_T of
        Inl e \<Rightarrow> Inl e
      | Inr cop \<Rightarrow> Inr (Item (np_where (np_le delta_T (Fin 0)) NaN cop)))"
| "carnot_cop_heating_fl fl T_hot_K (NdArray T_cold_K) =
     (let delta_T = map_ndarray (\<lambda>t. fl (T_hot_K - t)) T_cold_K in
      Inr (map_ndarray (\<lambda>d. np_where (np_le d (Fin 0)) NaN (np_divide_fl fl T_hot_K d)) delta_T))"

text \<open>
  The rounding of IEEE 754 binary64, to nearest with ties to even: a value in the binade
  of exponent \<open>e\<close> is rounded to a multiple of \<open>2 ^ (e - 52)\<close>, exponents below -1022 count as
  -1022 (the subnormal numbers), and a result of magnitude \<open>2 ^ 1024\<close> or more is an
  infinity. \<open>rne\<close> rounds a real to the nearest integer, ties to the even one.
\<close>

definition rne :: "real \<Rightarrow> int" where
  "rne r = (let f = \<lfloor>r\<rfloor>; d = r - of_int f
            in if d < 1 / 2 then f else if 1 / 2 < d then f + 1
               else if even f then f else f + 1)"

definition float64_exponent :: "real \<Rightarrow> int" where
  "float64_exponent x = max \<lfloor>log 2 \<bar>x\<bar>\<rfloor> (- 1022)"

definition float64_ulp :: "real \<Rightarrow> real" where
  "float64_ulp x = 2 powr of_int (float64_exponent x - 52)"

definition round64 :: "real \<Rightarrow> real" where
  "round64 x = (if x = 0 then 0 else of_int (rne (x / float64_ulp x)) * float64_ulp x)"

definition float64 :: "real \<Rightarrow> npfloat" where
  "float64 x =
     (let r = round64 x
      in if 2 ^ 1024 \<le> r then PInf else if r \<le> - (2 ^ 1024) then NInf else Fin r)"



section \<open>cop\_data.py\<close>

text \<open>
  \<^verbatim>\<open>
  TREND_LINE_DATA = {
      'temperature_c': np.array([-20, -15, -10, -5, 0, 5, 10]),
      'cop_avg': np.array([1.8, 2.0, 2.2, 2.5, 2.8, 3.3, 3.7])
  }
  \<close>
\<close>

definition temperature_c :: "real list" where
  "temperature_c = [- 20, - 15, - 10, - 5, 0, 5, 10]"

definition cop_avg :: "real list" where
  "cop_avg = [1.8, 2.0, 2.2, 2.5, 2.8, 3.3, 3.7]"

subsection \<open>The numpy functions the generator calls\<close>

text \<open>
  numpy's global generator is a state of some type \<open>'g\<close> with three primitives:
  \<open>seed\<close> replaces the state by the one the seed determines, \<open>random_sample\<close> draws
  a double from \<open>[0, 1)\<close>, \<open>standard_normal\<close> draws from the standard normal
  distribution; each draw returns the advanced state. The generator's algorithm belongs
  to numpy, so it is a parameter of the model.
\<close>

record 'g np_random =
  seed :: "int \<Rightarrow> 'g"
  random_sample :: "'g \<Rightarrow> real \<times> 'g"
  standard_normal :: "'g \<Rightarrow> real \<times> 'g"

text \<open>\<open>n\<close> successive draws, in order.\<close>

fun draw :: "('g \<Rightarrow> real \<times> 'g) \<Rightarrow> nat \<Rightarrow> 'g \<Rightarrow> real list \<times> 'g" where
  "draw f 0 g = ([], g)"
| "draw f (Suc n) g =
     (case f g of (x, g') \<Rightarrow> (case draw f n g' of (xs, g'') \<Rightarrow> (x # xs, g'')))"

text \<open>
  \<open>np.random.uniform(low, high, size)\<close>: \<open>size\<close> values \<open>low + (high - low) * u\<close> with
  \<open>u\<close> from \<open>random_sample\<close>; a negative \<open>size\<close> raises \<open>ValueError\<close>.
\<close>

definition np_random_uniform ::
  "'g np_random \<Rightarrow> real \<Rightarrow> real \<Rightarrow> int \<Rightarrow> 'g \<Rightarrow> (error + real list) \<times> 'g" where
  "np_random_uniform rng low high sz g =
     (if sz < 0 then (Inl ValueError, g)
      else case draw (random_sample rng) (nat sz) g of
             (us, g') \<Rightarrow> (Inr (map (\<lambda>u. low + (high - low) * u) us), g'))"

text \<open>Broadcasting a one-dimensional array to \<open>n\<close> elements.\<close>

definition np_broadcast :: "real list \<Rightarrow> nat \<Rightarrow> error + real list" where
  "np_broadcast xs n =
     (if length xs = n then Inr xs
      else if length xs = 1 then Inr (replicate n (hd xs))
      else Inl ValueError)"

text \<open>
  \<open>np.random.normal(loc, scale, size)\<close> with an array \<open>scale\<close>: \<open>size\<close> values
  \<open>loc + scale[i] * z\<close> with \<open>z\<close> from \<open>standard_normal\<close>. A negative \<open>size\<close>, a
  negative element of \<open>scale\<close> and a \<open>scale\<close> that does not broadcast to \<open>size\<close> raise
  \<open>ValueError\<close>.
\<close>

definition np_random_normal ::
  "'g np_random \<Rightarrow> real \<Rightarrow> real list \<Rightarrow> int \<Rightarrow> 'g \<Rightarrow> (error + real list) \<times> 'g" where
  "np_random_normal rng loc scale sz g =
     (if sz < 0 then (Inl ValueError, g)
      else if list_ex (\<lambda>s. s < 0) scale then (Inl ValueError, g)
      else case np_broadcast scale (nat sz) of
             Inl e \<Rightarrow> (Inl e, g)
           | Inr scale' \<Rightarrow>
               (case draw (standard_normal rng) (nat sz) g of
                  (zs, g') \<Rightarrow> (Inr (map2 (\<lambda>s z. loc + s * z) scale' zs), g')))"

text \<open>
  \<open>np.poly1d(c)(x)\<close>: the polynomial with coefficients \<open>c\<close>, highest degree first,
  evaluated by Horner's rule.
\<close>

definition poly1d :: "real list \<Rightarrow> real \<Rightarrow> real" where
  "poly1d c x = foldl (\<lambda>y pv. y * x + pv) 0 c"

text \<open>\<open>a.min()\<close> and \<open>a.max()\<close>: \<open>ValueError\<close> on an empty array.\<close>

definition np_min :: "real list \<Rightarrow> error + real" where
  "np_min a = (case a of [] \<Rightarrow> Inl ValueError | x # xs \<Rightarrow> Inr (fold min xs x))"

definition np_max :: "real list \<Rightarrow> error + real" where
  "np_max a = (case a of [] \<Rightarrow> Inl ValueError | x # xs \<Rightarrow> Inr (fold max xs x))"

text \<open>
  \<open>np.polyfit(x, y, deg)\<close>, numpy's least-squares polynomial fit, is a parameter of the
  model: a function from the points and the degree to the coefficients (highest degree
  first) or to the exception it raises.
\<close>

type_synonym polyfit = "real list \<Rightarrow> real list \<Rightarrow> nat \<Rightarrow> error + real list"

subsection \<open>The generator\<close>

text \<open>
  \<^verbatim>\<open>
  def generate_synthetic_scatter_data(trend_x, trend_y, num_points=1200):
      trend_poly = np.polyfit(trend_x, trend_y, 3)
      p = np.poly1d(trend_poly)
      np.random.seed(42)
      synthetic_temp = np.random.uniform(trend_x.min(), trend_x.max(), num_points)
      expected_cop = p(synthetic_temp)
      variance_factor = 0.2 + 0.1 * ((synthetic_temp + 20) / 30)
      synthetic_cop = expected_cop + np.random.normal(0, variance_factor, num_points)
      synthetic_cop = np.maximum(synthetic_cop, 0.5)
      return synthetic_temp, synthetic_cop, p(synthetic_temp)
  \<close>
  The function takes the state \<open>g\<close> of the global generator and returns the state it
  leaves behind, next to its result or the exception it raises.
\<close>

definition default_num_points :: int where
  "default_num_points = 1200"

definition variance_factor :: "real list \<Rightarrow> real list" where
  "variance_factor synthetic_temp = map (\<lambda>t. 0.2 + 0.1 * ((t + 20) / 30)) synthetic_temp"

definition generate_synthetic_scatter_data ::
  "'g np_random \<Rightarrow> polyfit \<Rightarrow> real list \<Rightarrow> real list \<Rightarrow> int \<Rightarrow> 'g
     \<Rightarrow> (error + real list \<times> real list \<times> real list) \<times> 'g" where
  "generate_synthetic_scatter_data rng np_polyfit trend_x trend_y num_points g =
     (case np_polyfit trend_x trend_y 3 of
        Inl e \<Rightarrow> (Inl e, g)
      | Inr trend_poly \<Rightarrow>
          let p = poly1d trend_poly;
              g1 = seed rng 42
          in case np_min trend_x of
               Inl e \<Rightarrow> (Inl e, g1)
             | Inr lo \<Rightarrow>
          (case np_max trend_x of
               Inl e \<Rightarrow> (Inl e, g1)
             | Inr hi \<Rightarrow>
          (case np_random_uniform rng lo hi num_points g1 of
               (Inl e, g2) \<Rightarrow> (Inl e, g2)
             | (Inr synthetic_temp, g2) \<Rightarrow>
                 let expected_cop = map p synthetic_temp
                 in case np_random_normal rng 0 (variance_factor synthetic_temp) num_points g2 of
                      (Inl e, g3) \<Rightarrow> (Inl e, g3)
                    | (Inr noise, g3) \<Rightarrow>
                        let synthetic_cop = map2 (+) expected_cop noise;
                            synthetic_cop = map (\<lambda>c. max c 0.5) synthetic_cop
                        in (Inr (synthetic_temp, synthetic_cop, map p synthetic_temp), g3))))"

subsection \<open>Sample instances of the parameters\<close>

text \<open>
  A small linear congruential generator, an instance of the generator interface on which
  statements are evaluated at concrete inputs.
\<close>

definition lcg_next :: "nat \<Rightarrow> nat" where
  "lcg_next g = (1103515245 * g + 12345) mod 2147483648"

definition lcg :: "nat np_random" where
  "lcg = \<lparr> seed = (\<lambda>s. nat (s mod 4294967296)),
           random_sample = (\<lambda>g. (real (g mod 1000) / 1000, lcg_next g)),
           standard_normal = (\<lambda>g. (real_of_int (int (g mod 9) - 4) / 2, lcg_next g)) \<rparr>"

text \<open>
  The least-squares cubic of the script's trend data, in exact arithmetic, highest degree
  first: the cubic coefficient vanishes.
\<close>

definition trend_fit :: "real list" where
  "trend_fit = [0, 1 / 840, 317 / 4200, 199 / 70]"


section \<open>Properties of carnot\_cop.py\<close>

lemma items_map_ndarray: "items (map_ndarray f a) = map f (items a)"
  by (induction a) (simp_all add: map_concat comp_def cong: map_cong)

lemma shape_map_ndarray: "shape (map_ndarray f a) = shape a"
  by (simp add: shape_def ndarray.map_comp comp_def)

text \<open>
  C5: \<open>celsius_to_kelvin\<close> is the total function \<open>k = c + 273.15\<close>: on a scalar it
  returns \<open>c + 273.15\<close>, on an array of any shape it returns an array of the same shape
  whose elements are those of the input plus 273.15, and it has no error result. In
  particular \<open>celsius_to_kelvin(0) = 273.15\<close> and \<open>celsius_to_kelvin(-273.15) = 0\<close>.
\<close>

theorem celsius_to_kelvin_total:
  "celsius_to_kelvin (PyFloat c) = PyFloat (c + 273.15)
   \<and> (\<exists>b. celsius_to_kelvin (NdArray a) = NdArray b \<and> shape b = shape a
          \<and> items b = map (\<lambda>c. c + 273.15) (items a))
   \<and> celsius_to_kelvin (PyFloat 0) = PyFloat 273.15
   \<and> celsius_to_kelvin (PyFloat (- 273.15)) = PyFloat 0"
  by (simp add: items_map_ndarray shape_map_ndarray)

text \<open>
  C4: the concrete Carnot cases. 65 and -35 degrees Celsius convert to 338.15 K and
  238.15 K, and \<open>carnot_cop_heating\<close> returns \<open>338.15 / (338.15 - 238.15) = 3.3815\<close>;
  35 and 0 degrees Celsius convert to 308.15 K and 273.15 K, and it returns
  \<open>308.15 / 35\<close>, which is 8.80 to two decimals.
\<close>

theorem carnot_concrete_cases:
  "celsius_to_kelvin (PyFloat 65) = PyFloat 338.15
   \<and> celsius_to_kelvin (PyFloat (- 35)) = PyFloat 238.15
   \<and> carnot_cop_heating 338.15 (PyFloat 238.15) = Inr (Item (Fin 3.3815))
   \<and> (3.3815 :: real) = 338.15 / (338.15 - 238.15)
   \<and> celsius_to_kelvin (PyFloat 35) = PyFloat 308.15
   \<and> celsius_to_kelvin (PyFloat 0) = PyFloat 273.15
   \<and> carnot_cop_heating 308.15 (PyFloat 273.15) = Inr (Item (Fin (308.15 / 35)))
   \<and> \<bar>308.15 / 35 - (8.80 :: real)\<bar> < 0.005"
  by (simp add: py_truediv_def np_where_def)

text \<open>
  On Python floats the division comes before \<open>np.where\<close>, so equal temperatures raise
  instead of giving the invalid marker; on arrays they give the marker.
\<close>

lemma carnot_cop_heating_float_boundary:
  "carnot_cop_heating 308.15 (PyFloat 308.15) = Inl ZeroDivisionError
   \<and> carnot_cop_heating 308.15 (NdArray (Item 308.15)) = Inr (Item NaN)"
  by (simp add: py_truediv_def np_where_def np_divide_def)

text \<open>
  C1: for a positive \<open>T_hot_K\<close> and a sequence \<open>T_cold_K\<close> of positive reals,
  \<open>carnot_cop_heating\<close> does not raise: it returns a sequence of the same length whose
  element \<open>i\<close> is the invalid marker exactly when \<open>T_hot_K - T_cold_K[i] \<le> 0\<close>
  (zero included), and is otherwise \<open>T_hot_K / (T_hot_K - T_cold_K[i])\<close>, a finite
  positive real.
\<close>

theorem carnot_cop_heating_invalid_marker:
  assumes "0 < T_hot_K" and "\<forall>t \<in> set T_cold_K. 0 < t"
  shows "\<exists>cop. carnot_cop_heating T_hot_K (NdArray (np_array T_cold_K)) = Inr (np_array cop)
           \<and> length cop = length T_cold_K
           \<and> (\<forall>i < length T_cold_K.
                 (cop ! i = NaN \<longleftrightarrow> T_hot_K - T_cold_K ! i \<le> 0)
               \<and> (0 < T_hot_K - T_cold_K ! i \<longrightarrow>
                    cop ! i = Fin (T_hot_K / (T_hot_K - T_cold_K ! i))
                  \<and> 0 < T_hot_K / (T_hot_K - T_cold_K ! i)))"
proof -
  let ?f = "\<lambda>t. np_where (T_hot_K - t \<le> 0) NaN (np_divide T_hot_K (T_hot_K - t))"
  have run: "carnot_cop_heating T_hot_K (NdArray (np_array T_cold_K))
               = Inr (np_array (map ?f T_cold_K))"
    by (simp add: np_array_def comp_def)
  have elem: "(?f t = NaN \<longleftrightarrow> T_hot_K - t \<le> 0)
              \<and> (0 < T_hot_K - t \<longrightarrow> ?f t = Fin (T_hot_K / (T_hot_K - t))
                    \<and> 0 < T_hot_K / (T_hot_K - t))" for t
    using assms(1) by (simp add: np_where_def np_divide_def)
  show ?thesis
    using run elem by (intro exI [of _ "map ?f T_cold_K"]) simp
qed

theorem carnot_cop_heating_invalid_marker_witness:
  "\<exists>cop. carnot_cop_heating 308.15 (NdArray (np_array [273.15, 308.15, 310]))
            = Inr (np_array cop)
         \<and> length cop = 3
         \<and> cop ! 0 = Fin (308.15 / 35) \<and> cop ! 1 = NaN \<and> cop ! 2 = NaN"
proof -
  have hot: "0 < (308.15 :: real)" by simp
  have cold: "\<forall>t \<in> set [273.15, 308.15, 310 :: real]. 0 < t" by simp
  from carnot_cop_heating_invalid_marker [OF hot cold]
  obtain cop where run: "carnot_cop_heating 308.15 (NdArray (np_array [273.15, 308.15, 310]))
        = Inr (np_array cop)"
    and len: "length cop = 3"
    and elems: "\<forall>i < 3. (cop ! i = NaN \<longleftrightarrow> 308.15 - [273.15, 308.15, 310 :: real] ! i \<le> 0)
               \<and> (0 < 308.15 - [273.15, 308.15, 310 :: real] ! i \<longrightarrow>
                    cop ! i = Fin (308.15 / (308.15 - [273.15, 308.15, 310] ! i))
                  \<and> 0 < 308.15 / (308.15 - [273.15, 308.15, 310 :: real] ! i))"
    by auto
  from elems [rule_format, of 0] have e0: "cop ! 0 = Fin (308.15 / 35)" by simp
  from elems [rule_format, of 1] have e1: "cop ! 1 = NaN" by simp
  from elems [rule_format, of 2] have e2: "cop ! 2 = NaN" by simp
  from run len e0 e1 e2 show ?thesis by blast
qed

subsection \<open>Rounding\<close>

text \<open>
  \<open>float64\<close> does not decrease on the non-negative reals, leaves the powers of two of
  its range unchanged, and rounds the difference of two distinct representable numbers to
  a non-zero value: representable numbers are multiples of \<open>2 ^ (-1074)\<close>.
\<close>

lemma rne_of_int: "rne (of_int k) = k"
  by (simp add: rne_def)

lemma rne_bounds: "\<lfloor>r\<rfloor> \<le> rne r \<and> rne r \<le> \<lfloor>r\<rfloor> + 1"
  by (simp add: rne_def Let_def)

lemma rne_mono:
  assumes "r \<le> s"
  shows "rne r \<le> rne s"
proof (cases "\<lfloor>r\<rfloor> = \<lfloor>s\<rfloor>")
  case True
  have "r - of_int \<lfloor>r\<rfloor> \<le> s - of_int \<lfloor>s\<rfloor>" using assms True by simp
  then show ?thesis using True by (auto simp: rne_def Let_def)
next
  case False
  have "\<lfloor>r\<rfloor> \<le> \<lfloor>s\<rfloor>" using assms by (rule floor_mono)
  with False have "\<lfloor>r\<rfloor> + 1 \<le> \<lfloor>s\<rfloor>" by simp
  with rne_bounds [of r] rne_bounds [of s] show ?thesis by linarith
qed

lemma float64_ulp_pos: "0 < float64_ulp x"
  by (simp add: float64_ulp_def)

lemma float64_exponent_mono:
  assumes "0 < x" and "x \<le> y"
  shows "float64_exponent x \<le> float64_exponent y"
proof -
  have "log 2 \<bar>x\<bar> \<le> log 2 \<bar>y\<bar>" using assms by (simp add: log_mono)
  then have "\<lfloor>log 2 \<bar>x\<bar>\<rfloor> \<le> \<lfloor>log 2 \<bar>y\<bar>\<rfloor>" by (rule floor_mono)
  then show ?thesis by (simp add: float64_exponent_def)
qed

lemma below_next_binade:
  assumes "0 < x"
  shows "x < 2 powr of_int (float64_exponent x + 1)"
proof -
  have "log 2 x < of_int \<lfloor>log 2 x\<rfloor> + 1" by linarith
  also have "\<dots> \<le> of_int (float64_exponent x + 1)"
    using assms by (simp add: float64_exponent_def)
  finally have "2 powr log 2 x < 2 powr of_int (float64_exponent x + 1)"
    by (simp only: powr_less_cancel_iff [of 2] one_less_numeral_iff semiring_norm)
  then show ?thesis using assms by simp
qed

lemma above_binade:
  assumes "0 < y" and "- 1022 < float64_exponent y"
  shows "2 powr of_int (float64_exponent y) \<le> y"
proof -
  have "float64_exponent y = \<lfloor>log 2 y\<rfloor>"
    using assms by (simp add: float64_exponent_def max_def split: if_splits)
  then have "of_int (float64_exponent y) \<le> log 2 y" by simp
  then have "2 powr of_int (float64_exponent y) \<le> 2 powr log 2 y"
    by (simp only: powr_le_cancel_iff [of 2] one_less_numeral_iff semiring_norm)
  then show ?thesis using assms by simp
qed

lemma two_powr_nat: "0 \<le> j \<Longrightarrow> (2 :: real) powr of_int j = of_int (2 ^ nat j)"
  by (simp add: powr_real_of_int)

lemma round64_le_next_binade:
  assumes "0 < x"
  shows "round64 x \<le> 2 powr of_int (float64_exponent x + 1)"
proof -
  let ?e = "float64_exponent x" and ?q = "float64_ulp x"
  have q: "0 < ?q" by (rule float64_ulp_pos)
  have split: "(2 :: real) powr of_int (?e + 1) = of_int (2 ^ 53) * ?q"
  proof -
    have ex: "(of_int (?e + 1) :: real) = of_int 53 + of_int (?e - 52)" by simp
    have "(2 :: real) powr of_int (?e + 1) = 2 powr (of_int 53 + of_int (?e - 52))"
      by (simp only: ex)
    also have "\<dots> = 2 powr of_int 53 * ?q" by (simp only: powr_add float64_ulp_def)
    also have "(2 :: real) powr of_int 53 = (of_int (2 ^ 53) :: real)" by (simp add: two_powr_nat)
    finally show ?thesis .
  qed
  have "x < of_int (2 ^ 53) * ?q"
    using below_next_binade [OF assms] by (simp only: split)
  then have "x / ?q < of_int (2 ^ 53)"
    using q by (simp only: pos_divide_less_eq)
  then have "x / ?q \<le> of_int (2 ^ 53)" by (rule less_imp_le)
  then have "rne (x / ?q) \<le> rne (of_int (2 ^ 53))" by (rule rne_mono)
  then have "rne (x / ?q) \<le> 2 ^ 53" by (simp only: rne_of_int)
  then have "(of_int (rne (x / ?q)) :: real) \<le> of_int (2 ^ 53)" by (simp only: of_int_le_iff)
  then have "of_int (rne (x / ?q)) * ?q \<le> of_int (2 ^ 53) * ?q"
    using q by (simp only: mult_le_cancel_right_pos)
  then have "of_int (rne (x / ?q)) * ?q \<le> 2 powr of_int (?e + 1)"
    by (simp only: split)
  moreover have "round64 x = of_int (rne (x / ?q)) * ?q"
    using assms by (simp add: round64_def)
  ultimately show ?thesis by (simp only:)
qed

lemma round64_ge_binade:
  assumes "0 < y" and "- 1022 < float64_exponent y"
  shows "2 powr of_int (float64_exponent y) \<le> round64 y"
proof -
  let ?e = "float64_exponent y" and ?q = "float64_ulp y"
  have q: "0 < ?q" by (rule float64_ulp_pos)
  have split: "(2 :: real) powr of_int ?e = of_int (2 ^ 52) * ?q"
  proof -
    have ex: "(of_int ?e :: real) = of_int 52 + of_int (?e - 52)" by simp
    have "(2 :: real) powr of_int ?e = 2 powr (of_int 52 + of_int (?e - 52))"
      by (simp only: ex)
    also have "\<dots> = 2 powr of_int 52 * ?q" by (simp only: powr_add float64_ulp_def)
    also have "(2 :: real) powr of_int 52 = (of_int (2 ^ 52) :: real)" by (simp add: two_powr_nat)
    finally show ?thesis .
  qed
  have "of_int (2 ^ 52) * ?q \<le> y"
    using above_binade [OF assms] by (simp only: split)
  then have "of_int (2 ^ 52) \<le> y / ?q"
    using q by (simp only: pos_le_divide_eq)
  then have "rne (of_int (2 ^ 52)) \<le> rne (y / ?q)" by (rule rne_mono)
  then have "2 ^ 52 \<le> rne (y / ?q)" by (simp only: rne_of_int)
  then have "(of_int (2 ^ 52) :: real) \<le> of_int (rne (y / ?q))" by (simp only: of_int_le_iff)
  then have "of_int (2 ^ 52) * ?q \<le> of_int (rne (y / ?q)) * ?q"
    using q by (simp only: mult_le_cancel_right_pos)
  then have "2 powr of_int ?e \<le> of_int (rne (y / ?q)) * ?q"
    by (simp only: split)
  moreover have "round64 y = of_int (rne (y / ?q)) * ?q"
    using assms by (simp add: round64_def)
  ultimately show ?thesis by (simp only:)
qed

lemma round64_mono_pos:
  assumes "0 < x" and "x \<le> y"
  shows "round64 x \<le> round64 y"
proof (cases "float64_exponent x = float64_exponent y")
  case True
  then have q: "float64_ulp x = float64_ulp y" by (simp add: float64_ulp_def)
  have "x / float64_ulp y \<le> y / float64_ulp y"
    using assms float64_ulp_pos [of y] by (simp add: divide_right_mono)
  then have "rne (x / float64_ulp y) \<le> rne (y / float64_ulp y)" by (rule rne_mono)
  then have "of_int (rne (x / float64_ulp y)) * float64_ulp y
             \<le> of_int (rne (y / float64_ulp y)) * float64_ulp y"
    using float64_ulp_pos [of y] by (simp only: mult_le_cancel_right_pos of_int_le_iff)
  then show ?thesis using assms q by (simp add: round64_def)
next
  case False
  have y: "0 < y" using assms by simp
  have lt: "float64_exponent x + 1 \<le> float64_exponent y"
    using float64_exponent_mono [OF assms] False by simp
  have "- 1022 \<le> float64_exponent x" by (simp add: float64_exponent_def)
  with lt have big: "- 1022 < float64_exponent y" by simp
  have "round64 x \<le> 2 powr of_int (float64_exponent x + 1)"
    by (rule round64_le_next_binade [OF assms(1)])
  also have "\<dots> \<le> 2 powr of_int (float64_exponent y)"
    using lt by (simp only: powr_le_cancel_iff [of 2] one_less_numeral_iff semiring_norm of_int_le_iff)
  also have "\<dots> \<le> round64 y" by (rule round64_ge_binade [OF y big])
  finally show ?thesis .
qed

lemma round64_nonneg:
  assumes "0 \<le> x"
  shows "0 \<le> round64 x"
proof (cases "x = 0")
  case True
  then show ?thesis by (simp add: round64_def)
next
  case False
  have "0 \<le> x / float64_ulp x" using assms float64_ulp_pos [of x] by simp
  then have "rne 0 \<le> rne (x / float64_ulp x)" by (rule rne_mono)
  then have "0 \<le> rne (x / float64_ulp x)" using rne_of_int [of 0] by simp
  then show ?thesis using False float64_ulp_pos [of x] by (simp add: round64_def)
qed

lemma round64_mono:
  assumes "0 \<le> x" and "x \<le> y"
  shows "round64 x \<le> round64 y"
proof (cases "x = 0")
  case True
  have "0 \<le> round64 y" using assms by (intro round64_nonneg) simp
  with True show ?thesis by (simp add: round64_def)
next
  case False
  with assms have "0 < x" by simp
  then show ?thesis using assms(2) by (rule round64_mono_pos)
qed

lemma float64_mono:
  assumes "0 \<le> x" and "x \<le> y"
  shows "np_le (float64 x) (float64 y)"
proof -
  have le: "round64 x \<le> round64 y" using assms by (rule round64_mono)
  have nn: "0 \<le> round64 x" using assms(1) by (rule round64_nonneg)
  show ?thesis using le nn by (simp add: float64_def Let_def)
qed

lemma float64_Fin: "float64 a = Fin b \<Longrightarrow> round64 a = b"
  by (simp add: float64_def Let_def split: if_splits)

lemma round64_two_powr:
  assumes "- 1074 \<le> k"
  shows "round64 (2 powr of_int k) = 2 powr of_int k"
proof -
  define x :: real where "x = 2 powr of_int k"
  have pos: "0 < x" by (simp add: x_def)
  have "\<lfloor>log 2 \<bar>x\<bar>\<rfloor> = k" by (simp add: x_def)
  then have e: "float64_exponent x = max k (- 1022)" by (simp only: float64_exponent_def)
  define j where "j = k - (max k (- 1022) - 52)"
  have j: "0 \<le> j" using assms by (simp add: j_def max_def)
  define q where "q = float64_ulp x"
  have q: "q = 2 powr of_int (max k (- 1022) - 52)"
    by (simp only: q_def float64_ulp_def e)
  have qpos: "0 < q" unfolding q_def by (rule float64_ulp_pos)
  have "(of_int k :: real) = of_int j + of_int (max k (- 1022) - 52)" by (simp add: j_def)
  then have "x = 2 powr (of_int j + of_int (max k (- 1022) - 52))" by (simp only: x_def)
  also have "\<dots> = 2 powr of_int j * q" by (simp only: powr_add q)
  finally have x: "x = 2 powr of_int j * q" .
  have "x / q = 2 powr of_int j" using qpos by (simp add: x)
  also have "\<dots> = of_int (2 ^ nat j)" using j by (rule two_powr_nat)
  finally have "rne (x / q) = 2 ^ nat j" by (simp only: rne_of_int)
  then have "round64 x = of_int (2 ^ nat j) * q"
    using pos by (simp add: round64_def q_def)
  also have "\<dots> = 2 powr of_int j * q" using j by (simp only: two_powr_nat)
  also have "\<dots> = x" by (rule x [symmetric])
  finally show ?thesis by (simp only: x_def)
qed

lemma float64_two_powr:
  assumes "- 1074 \<le> k" and "k < 1024"
  shows "float64 (2 powr of_int k) = Fin (2 powr of_int k)"
proof -
  have r: "round64 (2 powr of_int k) = 2 powr of_int k" using assms(1) by (rule round64_two_powr)
  have "(of_int k :: real) < 1024" using assms(2) by simp
  then have "(2 :: real) powr of_int k < 2 powr 1024" by (rule powr_less_mono) simp
  also have "(2 :: real) powr 1024 = 2 ^ 1024" by (simp add: powr_numeral)
  finally have lt: "(2 :: real) powr of_int k < 2 ^ 1024" .
  have "- (2 ^ 1024) < (0 :: real)" by simp
  also have "(0 :: real) < 2 powr of_int k" by simp
  finally have gt: "- (2 ^ 1024) < (2 :: real) powr of_int k" .
  have "float64 (2 powr of_int k)
          = (if 2 ^ 1024 \<le> (2 :: real) powr of_int k then PInf
             else if (2 :: real) powr of_int k \<le> - (2 ^ 1024) then NInf
             else Fin (2 powr of_int k))"
    by (simp only: float64_def Let_def r)
  also have "\<dots> = Fin (2 powr of_int k)"
    using lt gt by (simp only: not_le [symmetric] if_False)
  finally show ?thesis .
qed

lemma representable_multiple:
  assumes "round64 a = a"
  shows "\<exists>K :: int. a = of_int K * 2 powr of_int (- 1074)"
proof (cases "a = 0")
  case True
  then show ?thesis by (intro exI [of _ 0]) simp
next
  case False
  let ?e = "float64_exponent a"
  have e: "- 1022 \<le> ?e" by (simp add: float64_exponent_def)
  then have j: "0 \<le> ?e + 1022" by simp
  have "(of_int (?e - 52) :: real) = of_int (?e + 1022) + of_int (- 1074)" by simp
  then have "float64_ulp a = 2 powr (of_int (?e + 1022) + of_int (- 1074))"
    by (simp only: float64_ulp_def)
  also have "\<dots> = 2 powr of_int (?e + 1022) * 2 powr of_int (- 1074)" by (simp only: powr_add)
  also have "2 powr of_int (?e + 1022) = (of_int (2 ^ nat (?e + 1022)) :: real)"
    using j by (rule two_powr_nat)
  finally have q: "float64_ulp a = of_int (2 ^ nat (?e + 1022)) * 2 powr of_int (- 1074)" .
  have "a = of_int (rne (a / float64_ulp a)) * float64_ulp a"
    using assms False by (simp add: round64_def)
  also have "\<dots> = of_int (rne (a / float64_ulp a) * 2 ^ nat (?e + 1022)) * 2 powr of_int (- 1074)"
    by (subst q) simp
  finally show ?thesis by (rule exI)
qed

lemma round64_difference_pos:
  assumes a: "round64 a = a" and b: "round64 b = b" and lt: "b < a"
  shows "0 < round64 (a - b)"
proof -
  let ?m = "(2 :: real) powr of_int (- 1074)"
  have m: "0 < ?m" by simp
  from representable_multiple [OF a] obtain Ka :: int where Ka: "a = of_int Ka * ?m" by blast
  from representable_multiple [OF b] obtain Kb :: int where Kb: "b = of_int Kb * ?m" by blast
  have "of_int Kb * ?m < of_int Ka * ?m" using lt Ka Kb by (simp only:)
  then have "(of_int Kb :: real) < of_int Ka" using m by (simp only: mult_less_cancel_right_pos)
  then have "Kb + 1 \<le> Ka" by simp
  then have "(1 :: real) \<le> of_int (Ka - Kb)" by simp
  then have "1 * ?m \<le> of_int (Ka - Kb) * ?m" using m by (simp only: mult_le_cancel_right_pos)
  also have "of_int (Ka - Kb) * ?m = a - b" by (simp add: Ka Kb algebra_simps)
  finally have ge: "?m \<le> a - b" by simp
  have "round64 ?m \<le> round64 (a - b)" using m ge by (rule round64_mono_pos)
  moreover have "round64 ?m = ?m" by (rule round64_two_powr) simp
  ultimately show ?thesis using m by linarith
qed

lemma float64_difference_pos:
  assumes "float64 a = Fin a" and "float64 b = Fin b" and "b < a"
  shows "\<not> np_le (float64 (a - b)) (Fin 0)"
proof -
  have "0 < round64 (a - b)"
    using float64_Fin [OF assms(1)] float64_Fin [OF assms(2)] assms(3)
    by (rule round64_difference_pos)
  then show ?thesis by (simp add: float64_def Let_def)
qed

lemma carnot_cop_heating_fl_exact:
  "carnot_cop_heating_fl Fin T_hot_K T_cold_K = carnot_cop_heating T_hot_K T_cold_K"
  by (cases T_cold_K)
     (simp_all add: py_truediv_fl_def py_truediv_def np_divide_fl_def np_divide_def
        Let_def ndarray.map_comp comp_def)

lemma np_le_Fin_cases:
  assumes "np_le x (Fin b)" and "\<not> np_le x (Fin 0)"
  obtains d where "x = Fin d" and "0 < d" and "d \<le> b"
  using assms by (cases x) simp_all

lemma carnot_fl_value:
  assumes mono: "\<forall>x y. 0 \<le> x \<and> x \<le> y \<longrightarrow> np_le (fl x) (fl y)"
    and diff: "\<forall>a b. fl a = Fin a \<and> fl b = Fin b \<and> b < a \<longrightarrow> \<not> np_le (fl (a - b)) (Fin 0)"
    and hot: "fl T_hot_K = Fin T_hot_K" and cold: "fl T_cold_K = Fin T_cold_K"
    and pos: "0 < T_cold_K" and lt: "T_cold_K < T_hot_K"
  obtains d where "fl (T_hot_K - T_cold_K) = Fin d" and "0 < d" and "d \<le> T_hot_K"
    and "carnot_cop_heating_fl fl T_hot_K (PyFloat T_cold_K) = Inr (Item (fl (T_hot_K / d)))"
    and "carnot_cop_heating_fl fl T_hot_K (NdArray (Item T_cold_K)) = Inr (Item (fl (T_hot_K / d)))"
proof -
  have "np_le (fl (T_hot_K - T_cold_K)) (fl T_hot_K)"
    using mono pos lt by simp
  then have up: "np_le (fl (T_hot_K - T_cold_K)) (Fin T_hot_K)" by (simp only: hot)
  have nz: "\<not> np_le (fl (T_hot_K - T_cold_K)) (Fin 0)"
    using diff hot cold lt by blast
  from up nz obtain d where d: "fl (T_hot_K - T_cold_K) = Fin d" "0 < d" "d \<le> T_hot_K"
    by (rule np_le_Fin_cases)
  have "carnot_cop_heating_fl fl T_hot_K (PyFloat T_cold_K) = Inr (Item (fl (T_hot_K / d)))"
    using d by (simp add: py_truediv_fl_def np_divide_fl_def np_where_def)
  moreover have "carnot_cop_heating_fl fl T_hot_K (NdArray (Item T_cold_K))
      = Inr (Item (fl (T_hot_K / d)))"
    using d by (simp add: np_divide_fl_def np_where_def)
  ultimately show ?thesis using d that by blast
qed

lemma carnot_fl_at_least_one_nondecreasing:
  assumes mono: "\<forall>x y. 0 \<le> x \<and> x \<le> y \<longrightarrow> np_le (fl x) (fl y)"
    and one: "fl 1 = Fin 1"
    and diff: "\<forall>a b. fl a = Fin a \<and> fl b = Fin b \<and> b < a \<longrightarrow> \<not> np_le (fl (a - b)) (Fin 0)"
    and hot: "fl T_hot_K = Fin T_hot_K"
    and cold1: "fl T_cold1 = Fin T_cold1" and cold2: "fl T_cold2 = Fin T_cold2"
    and pos: "0 < T_cold1" and lt: "T_cold1 < T_cold2" and below: "T_cold2 < T_hot_K"
  shows "\<exists>cop1 cop2.
           carnot_cop_heating_fl fl T_hot_K (PyFloat T_cold1) = Inr (Item cop1)
         \<and> carnot_cop_heating_fl fl T_hot_K (PyFloat T_cold2) = Inr (Item cop2)
         \<and> carnot_cop_heating_fl fl T_hot_K (NdArray (Item T_cold1)) = Inr (Item cop1)
         \<and> carnot_cop_heating_fl fl T_hot_K (NdArray (Item T_cold2)) = Inr (Item cop2)
         \<and> np_le (Fin 1) cop1 \<and> np_le (Fin 1) cop2 \<and> np_le cop1 cop2"
proof -
  have pos2: "0 < T_cold2" and below1: "T_cold1 < T_hot_K" and hpos: "0 < T_hot_K"
    using pos lt below by simp_all
  from carnot_fl_value [OF mono diff hot cold1 pos below1]
  obtain d1 where d1: "fl (T_hot_K - T_cold1) = Fin d1" "0 < d1" "d1 \<le> T_hot_K"
    and run1: "carnot_cop_heating_fl fl T_hot_K (PyFloat T_cold1) = Inr (Item (fl (T_hot_K / d1)))"
      "carnot_cop_heating_fl fl T_hot_K (NdArray (Item T_cold1)) = Inr (Item (fl (T_hot_K / d1)))"
    by blast
  from carnot_fl_value [OF mono diff hot cold2 pos2 below]
  obtain d2 where d2: "fl (T_hot_K - T_cold2) = Fin d2" "0 < d2" "d2 \<le> T_hot_K"
    and run2: "carnot_cop_heating_fl fl T_hot_K (PyFloat T_cold2) = Inr (Item (fl (T_hot_K / d2)))"
      "carnot_cop_heating_fl fl T_hot_K (NdArray (Item T_cold2)) = Inr (Item (fl (T_hot_K / d2)))"
    by blast
  have "np_le (fl (T_hot_K - T_cold2)) (fl (T_hot_K - T_cold1))"
    using mono lt below by simp
  then have d21: "d2 \<le> d1" by (simp add: d1 d2)
  have q1: "1 \<le> T_hot_K / d1" using d1 by simp
  have q2: "1 \<le> T_hot_K / d2" using d2 by simp
  have q12: "T_hot_K / d1 \<le> T_hot_K / d2"
    using d21 d2(2) hpos by (intro divide_left_mono) simp_all
  have "np_le (fl 1) (fl (T_hot_K / d1))" using mono q1 by simp
  then have g1: "np_le (Fin 1) (fl (T_hot_K / d1))" by (simp only: one)
  have "np_le (fl 1) (fl (T_hot_K / d2))" using mono q2 by simp
  then have g2: "np_le (Fin 1) (fl (T_hot_K / d2))" by (simp only: one)
  have g12: "np_le (fl (T_hot_K / d1)) (fl (T_hot_K / d2))"
    using mono q1 q12 by simp
  from run1 run2 g1 g2 g12 show ?thesis by blast
qed

lemma float64_exponent_eq:
  assumes "0 < x" and "2 powr of_int k \<le> x" and "x < 2 powr of_int (k + 1)" and "- 1022 \<le> k"
  shows "float64_exponent x = k"
proof -
  have "\<lfloor>log 2 x\<rfloor> = k"
    using assms(1-3) by (simp only: floor_log_eq_powr_iff [of x 2 k] one_less_numeral_iff semiring_norm)
  then show ?thesis using assms(1,4) by (simp add: float64_exponent_def)
qed

lemma rne_round_up:
  assumes "\<lfloor>r\<rfloor> = f" and "1 / 2 < r - of_int f"
  shows "rne r = f + 1"
  using assms by (simp add: rne_def Let_def)

lemma round64_below_256:
  assumes "0 < t" and "t < 1 / 2 ^ 46"
  shows "round64 (256 - t) = 256"
proof -
  define x where "x = 256 - t"
  have t1: "t < 1" using assms(2) by simp
  have x: "128 \<le> x" "x < 256" "0 < x" using assms(1) t1 by (simp_all add: x_def)
  have e: "float64_exponent x = 7"
  proof (rule float64_exponent_eq)
    show "0 < x" by (rule x(3))
    show "2 powr of_int 7 \<le> x" using x(1) by (simp add: powr_real_of_int)
    show "x < 2 powr of_int (7 + 1)" using x(2) by (simp add: powr_real_of_int)
    show "- 1022 \<le> (7 :: int)" by simp
  qed
  have q: "float64_ulp x = 1 / 2 ^ 45"
    by (simp add: float64_ulp_def e powr_neg_numeral)
  define s where "s = t * 2 ^ 45"
  have s: "0 < s" "s < 1 / 2" using assms by (simp_all add: s_def)
  have r: "x / float64_ulp x = of_int (2 ^ 53 - 1) + (1 - s)"
    by (simp only: q) (simp add: x_def s_def algebra_simps)
  have fl: "\<lfloor>x / float64_ulp x\<rfloor> = 2 ^ 53 - 1"
    unfolding r using s by (intro floor_unique) simp_all
  have d: "x / float64_ulp x - of_int (2 ^ 53 - 1) = 1 - s"
    by (simp only: r)
  have "1 / 2 < x / float64_ulp x - of_int (2 ^ 53 - 1)"
    using s by (simp only: d)
  with fl have "rne (x / float64_ulp x) = 2 ^ 53 - 1 + 1" by (rule rne_round_up)
  then have "rne (x / float64_ulp x) = 2 ^ 53" by simp
  then have "round64 x = of_int (2 ^ 53) * (1 / 2 ^ 45)"
    using x(3) by (simp only: round64_def q) simp
  also have "\<dots> = 256" by simp
  finally show ?thesis by (simp only: x_def)
qed

lemma float64_below_256:
  assumes "0 < t" and "t < 1 / 2 ^ 46"
  shows "float64 (256 - t) = Fin 256"
  by (simp add: float64_def Let_def round64_below_256 [OF assms])

lemma float64_one: "float64 1 = Fin 1"
  using float64_two_powr [of 0] by simp

lemma float64_256: "float64 256 = Fin 256"
proof -
  have "(2 :: real) powr of_int 8 = 256" by (simp add: powr_real_of_int)
  with float64_two_powr [of 8] show ?thesis by simp
qed

lemma float64_two_to_minus:
  assumes "n \<le> 1074"
  shows "float64 (1 / 2 ^ n) = Fin (1 / 2 ^ n)"
proof -
  have "(2 :: real) powr of_int (- int n) = 2 powr (- real n)" by simp
  also have "\<dots> = 1 / 2 powr real n" by (rule powr_minus_divide)
  also have "(2 :: real) powr real n = 2 ^ n" by (simp add: powr_realpow)
  finally have "(2 :: real) powr of_int (- int n) = 1 / 2 ^ n" .
  with float64_two_powr [of "- int n"] assms show ?thesis by simp
qed

lemma carnot_float64_rounds_to_one:
  assumes "0 < t" and "t < 1 / 2 ^ 46"
  shows "carnot_cop_heating_fl float64 256 (PyFloat t) = Inr (Item (Fin 1))"
  by (simp add: float64_below_256 [OF assms] py_truediv_fl_def np_divide_fl_def
      np_where_def float64_one)

text \<open>
  C3: the result of \<open>carnot_cop_heating\<close> is not decreasing in \<open>T_cold_K\<close>: with
  \<open>T_hot_K = 308.15\<close> the value at \<open>T_cold_K = 238.15\<close> is \<open>308.15 / 70\<close> and the
  value at the larger \<open>T_cold_K = 273.15\<close> is \<open>308.15 / 35\<close>, which is greater.
\<close>

theorem carnot_cop_heating_not_decreasing:
  "(0 :: real) < 238.15 \<and> (238.15 :: real) < 273.15 \<and> (273.15 :: real) < 308.15
   \<and> carnot_cop_heating 308.15 (PyFloat 238.15) = Inr (Item (Fin (308.15 / 70)))
   \<and> carnot_cop_heating 308.15 (PyFloat 273.15) = Inr (Item (Fin (308.15 / 35)))
   \<and> \<not> ((308.15 / 70 :: real) > 308.15 / 35)"
  by (simp add: py_truediv_def np_where_def)

text \<open>
  In exact arithmetic the result is greater than 1 and strictly increasing in
  \<open>T_cold_K\<close>.
\<close>

lemma carnot_cop_heating_exact_increasing:
  assumes "0 < T_hot_K" and "0 < T_cold1" and "T_cold1 < T_cold2" and "T_cold2 < T_hot_K"
  shows "\<exists>cop1 cop2.
           carnot_cop_heating T_hot_K (PyFloat T_cold1) = Inr (Item (Fin cop1))
         \<and> carnot_cop_heating T_hot_K (PyFloat T_cold2) = Inr (Item (Fin cop2))
         \<and> carnot_cop_heating T_hot_K (NdArray (Item T_cold1)) = Inr (Item (Fin cop1))
         \<and> carnot_cop_heating T_hot_K (NdArray (Item T_cold2)) = Inr (Item (Fin cop2))
         \<and> 1 < cop1 \<and> 1 < cop2 \<and> cop1 < cop2"
proof -
  let ?c1 = "T_hot_K / (T_hot_K - T_cold1)" and ?c2 = "T_hot_K / (T_hot_K - T_cold2)"
  have d1: "0 < T_hot_K - T_cold1" and d2: "0 < T_hot_K - T_cold2"
    using assms by simp_all
  have run: "carnot_cop_heating T_hot_K (PyFloat T_cold1) = Inr (Item (Fin ?c1))"
            "carnot_cop_heating T_hot_K (PyFloat T_cold2) = Inr (Item (Fin ?c2))"
            "carnot_cop_heating T_hot_K (NdArray (Item T_cold1)) = Inr (Item (Fin ?c1))"
            "carnot_cop_heating T_hot_K (NdArray (Item T_cold2)) = Inr (Item (Fin ?c2))"
    using d1 d2 by (simp_all add: py_truediv_def np_where_def np_divide_def)
  have g1: "1 < ?c1" using assms d1 by (simp add: field_simps)
  have g2: "1 < ?c2" using assms d2 by (simp add: field_simps)
  have lt: "T_hot_K - T_cold2 < T_hot_K - T_cold1"
    using assms(3) by simp
  have prod: "0 < (T_hot_K - T_cold1) * (T_hot_K - T_cold2)"
    using d1 d2 by simp
  have inc: "?c1 < ?c2"
    by (rule divide_strict_left_mono [OF lt assms(1) prod])
  from run g1 g2 inc show ?thesis by blast
qed

text \<open>
  C3, as the code has it: for float64 numbers \<open>T_hot_K > 0\<close> and
  \<open>0 < T_cold_K < T_hot_K\<close> the result of \<open>carnot_cop_heating\<close> is at least 1, and it
  does not decrease as \<open>T_cold_K\<close> increases toward \<open>T_hot_K\<close>: for
  \<open>T_cold1 < T_cold2 < T_hot_K\<close> the value at \<open>T_cold1\<close> is at most the value at
  \<open>T_cold2\<close>. This holds for a Python float argument and for a numpy scalar alike.
  Rounding makes both bounds attained: with \<open>T_hot_K = 256\<close> the values at
  \<open>T_cold_K = 2 ^ (-60)\<close> and at \<open>2 ^ (-59)\<close> are both exactly 1.
\<close>

theorem carnot_cop_heating_at_least_one_nondecreasing:
  assumes hot: "float64 T_hot_K = Fin T_hot_K"
    and cold1: "float64 T_cold1 = Fin T_cold1" and cold2: "float64 T_cold2 = Fin T_cold2"
    and pos: "0 < T_cold1" and lt: "T_cold1 < T_cold2" and below: "T_cold2 < T_hot_K"
  shows "\<exists>cop1 cop2.
           carnot_cop_heating_fl float64 T_hot_K (PyFloat T_cold1) = Inr (Item cop1)
         \<and> carnot_cop_heating_fl float64 T_hot_K (PyFloat T_cold2) = Inr (Item cop2)
         \<and> carnot_cop_heating_fl float64 T_hot_K (NdArray (Item T_cold1)) = Inr (Item cop1)
         \<and> carnot_cop_heating_fl float64 T_hot_K (NdArray (Item T_cold2)) = Inr (Item cop2)
         \<and> np_le (Fin 1) cop1 \<and> np_le (Fin 1) cop2 \<and> np_le cop1 cop2"
proof -
  have mono: "\<forall>x y. 0 \<le> x \<and> x \<le> y \<longrightarrow> np_le (float64 x) (float64 y)"
    using float64_mono by blast
  have diff: "\<forall>a b. float64 a = Fin a \<and> float64 b = Fin b \<and> b < a
                \<longrightarrow> \<not> np_le (float64 (a - b)) (Fin 0)"
    using float64_difference_pos by blast
  show ?thesis
    by (rule carnot_fl_at_least_one_nondecreasing
          [OF mono float64_one diff hot cold1 cold2 pos lt below])
qed

theorem carnot_cop_heating_at_least_one_nondecreasing_witness:
  "(\<exists>cop1 cop2.
      carnot_cop_heating_fl float64 256 (PyFloat (1 / 2 ^ 60)) = Inr (Item cop1)
    \<and> carnot_cop_heating_fl float64 256 (PyFloat (1 / 2 ^ 59)) = Inr (Item cop2)
    \<and> carnot_cop_heating_fl float64 256 (NdArray (Item (1 / 2 ^ 60))) = Inr (Item cop1)
    \<and> carnot_cop_heating_fl float64 256 (NdArray (Item (1 / 2 ^ 59))) = Inr (Item cop2)
    \<and> np_le (Fin 1) cop1 \<and> np_le (Fin 1) cop2 \<and> np_le cop1 cop2)
   \<and> carnot_cop_heating_fl float64 256 (PyFloat (1 / 2 ^ 60)) = Inr (Item (Fin 1))
   \<and> carnot_cop_heating_fl float64 256 (PyFloat (1 / 2 ^ 59)) = Inr (Item (Fin 1))"
proof (intro conjI)
  have cold1: "float64 (1 / 2 ^ 60) = Fin (1 / 2 ^ 60)" by (rule float64_two_to_minus) simp
  have cold2: "float64 (1 / 2 ^ 59) = Fin (1 / 2 ^ 59)" by (rule float64_two_to_minus) simp
  have pos: "0 < (1 / 2 ^ 60 :: real)" by simp
  have lt: "(1 / 2 ^ 60 :: real) < 1 / 2 ^ 59" by simp
  have below: "(1 / 2 ^ 59 :: real) < 256" by simp
  show "\<exists>cop1 cop2.
      carnot_cop_heating_fl float64 256 (PyFloat (1 / 2 ^ 60)) = Inr (Item cop1)
    \<and> carnot_cop_heating_fl float64 256 (PyFloat (1 / 2 ^ 59)) = Inr (Item cop2)
    \<and> carnot_cop_heating_fl float64 256 (NdArray (Item (1 / 2 ^ 60))) = Inr (Item cop1)
    \<and> carnot_cop_heating_fl float64 256 (NdArray (Item (1 / 2 ^ 59))) = Inr (Item cop2)
    \<and> np_le (Fin 1) cop1 \<and> np_le (Fin 1) cop2 \<and> np_le cop1 cop2"
    by (rule carnot_cop_heating_at_least_one_nondecreasing
          [OF float64_256 cold1 cold2 pos lt below])
  show "carnot_cop_heating_fl float64 256 (PyFloat (1 / 2 ^ 60)) = Inr (Item (Fin 1))"
    by (rule carnot_float64_rounds_to_one) simp_all
  show "carnot_cop_heating_fl float64 256 (PyFloat (1 / 2 ^ 59)) = Inr (Item (Fin 1))"
    by (rule carnot_float64_rounds_to_one) simp_all
qed


section \<open>Properties of cop\_data.py\<close>

subsection \<open>The library functions\<close>

lemma draw_length: "length (fst (draw f n g)) = n"
proof (induction n arbitrary: g)
  case 0
  show ?case by simp
next
  case (Suc n)
  obtain x g' where fg: "f g = (x, g')" by (cases "f g")
  obtain xs g'' where dr: "draw f n g' = (xs, g'')" by (cases "draw f n g'")
  have "length xs = n" using Suc [of g'] dr by simp
  then show ?case using fg dr by simp
qed

lemma draw_all:
  assumes "\<And>g. P (fst (f g))"
  shows "list_all P (fst (draw f n g))"
proof (induction n arbitrary: g)
  case 0
  show ?case by simp
next
  case (Suc n)
  obtain x g' where fg: "f g = (x, g')" by (cases "f g")
  obtain xs g'' where dr: "draw f n g' = (xs, g'')" by (cases "draw f n g'")
  have "P x" using assms [of g] fg by simp
  moreover have "list_all P xs" using Suc [of g'] dr by simp
  ultimately show ?case using fg dr by simp
qed

lemma draw_numeral:
  "draw f (numeral k) g =
     (case f g of (x, g') \<Rightarrow> (case draw f (pred_numeral k) g' of (xs, g'') \<Rightarrow> (x # xs, g'')))"
  by (simp add: numeral_eq_Suc)

lemma np_min_eq: "np_min a = (if a = [] then Inl ValueError else Inr (Min (set a)))"
proof (cases a)
  case Nil
  then show ?thesis by (simp add: np_min_def)
next
  case (Cons x xs)
  have "fold min xs x = Min (set (x # xs))" by (rule Min.set_eq_fold [symmetric])
  with Cons show ?thesis by (simp add: np_min_def)
qed

lemma np_max_eq: "np_max a = (if a = [] then Inl ValueError else Inr (Max (set a)))"
proof (cases a)
  case Nil
  then show ?thesis by (simp add: np_max_def)
next
  case (Cons x xs)
  have "fold max xs x = Max (set (x # xs))" by (rule Max.set_eq_fold [symmetric])
  with Cons show ?thesis by (simp add: np_max_def)
qed

lemma np_random_uniform_Inr:
  assumes "np_random_uniform rng low high sz g = (Inr ts, g')"
  shows "0 \<le> sz \<and> ts = map (\<lambda>u. low + (high - low) * u) (fst (draw (random_sample rng) (nat sz) g))
         \<and> g' = snd (draw (random_sample rng) (nat sz) g)"
  using assms by (auto simp: np_random_uniform_def split: if_splits prod.splits)

lemma np_random_normal_Inr:
  assumes "np_random_normal rng loc scale sz g = (Inr noise, g')"
  shows "0 \<le> sz \<and> \<not> list_ex (\<lambda>s. s < 0) scale
         \<and> (\<exists>scale'. np_broadcast scale (nat sz) = Inr scale'
               \<and> noise = map2 (\<lambda>s z. loc + s * z) scale' (fst (draw (standard_normal rng) (nat sz) g)))
         \<and> g' = snd (draw (standard_normal rng) (nat sz) g)"
  using assms by (auto simp: np_random_normal_def split: if_splits prod.splits sum.splits)

lemma generate_Inr:
  assumes "generate_synthetic_scatter_data rng np_polyfit trend_x trend_y num_points g
             = (Inr (synthetic_temp, synthetic_cop, fitted), g')"
  shows "\<exists>trend_poly lo hi g2 noise.
           np_polyfit trend_x trend_y 3 = Inr trend_poly
         \<and> np_min trend_x = Inr lo \<and> np_max trend_x = Inr hi
         \<and> np_random_uniform rng lo hi num_points (seed rng 42) = (Inr synthetic_temp, g2)
         \<and> np_random_normal rng 0 (variance_factor synthetic_temp) num_points g2 = (Inr noise, g')
         \<and> synthetic_cop = map (\<lambda>c. max c 0.5) (map2 (+) (map (poly1d trend_poly) synthetic_temp) noise)
         \<and> fitted = map (poly1d trend_poly) synthetic_temp"
  using assms unfolding generate_synthetic_scatter_data_def Let_def
  by (auto split: sum.splits prod.splits)

lemma generate_run:
  assumes "np_polyfit trend_x trend_y 3 = Inr trend_poly"
    and "np_min trend_x = Inr lo" and "np_max trend_x = Inr hi"
    and "np_random_uniform rng lo hi num_points (seed rng 42) = (Inr synthetic_temp, g2)"
    and "np_random_normal rng 0 (variance_factor synthetic_temp) num_points g2 = (Inr noise, g3)"
  shows "generate_synthetic_scatter_data rng np_polyfit trend_x trend_y num_points g
           = (Inr (synthetic_temp,
                   map (\<lambda>c. max c 0.5) (map2 (+) (map (poly1d trend_poly) synthetic_temp) noise),
                   map (poly1d trend_poly) synthetic_temp), g3)"
  using assms unfolding generate_synthetic_scatter_data_def Let_def by simp

lemma generate_state_irrelevant:
  "fst (generate_synthetic_scatter_data rng np_polyfit trend_x trend_y num_points g)
     = fst (generate_synthetic_scatter_data rng np_polyfit trend_x trend_y num_points g')"
  unfolding generate_synthetic_scatter_data_def Let_def
  by (simp split: sum.splits prod.splits)


lemma variance_factor_nonneg:
  fixes t :: real
  assumes "- 80 \<le> t"
  shows "0 \<le> 0.2 + 0.1 * ((t + 20) / 30)"
proof -
  have "0 \<le> (t + 80) / 300" using assms by simp
  also have "(t + 80) / 300 = 0.2 + 0.1 * ((t + 20) / 30)" by (simp add: field_simps)
  finally show ?thesis .
qed

lemma Min_le_Max_list:
  fixes xs :: "real list"
  assumes "xs \<noteq> []"
  shows "Min (set xs) \<le> Max (set xs)"
proof -
  have "hd xs \<in> set xs" using assms by simp
  then have "Min (set xs) \<le> hd xs" and "hd xs \<le> Max (set xs)" by simp_all
  then show ?thesis by (rule order_trans)
qed

lemma uniform_in_range:
  fixes u lo hi :: real
  assumes u: "0 \<le> u" "u < 1" and le: "lo \<le> hi"
  shows "lo \<le> lo + (hi - lo) * u \<and> lo + (hi - lo) * u \<le> hi"
proof -
  have d: "0 \<le> hi - lo" using le by simp
  have "0 \<le> (hi - lo) * u" using d u(1) by simp
  moreover have "(hi - lo) * u \<le> (hi - lo) * 1"
    using d u(2) by (intro mult_left_mono) simp_all
  ultimately show ?thesis by simp
qed

subsection \<open>Runs of the generator on the sample instances\<close>

text \<open>
  \<open>trend_fit\<close> solves the normal equations of the script's trend data at degree 3, so
  it is their least-squares cubic.
\<close>

lemma trend_fit_normal_equations:
  "list_all (\<lambda>k. (\<Sum>(x, y) \<leftarrow> zip temperature_c cop_avg. x ^ k * (poly1d trend_fit x - y)) = 0)
     [0, 1, 2, 3]"
  by (simp add: temperature_c_def cop_avg_def trend_fit_def poly1d_def)

lemma lcg_unit_interval:
  "0 \<le> fst (random_sample lcg g) \<and> fst (random_sample lcg g) < 1"
  by (simp add: lcg_def)

lemma lcg_uniform_run:
  "np_random_uniform lcg (- 20) 10 3 (seed lcg 42)
     = (Inr [- 18.74, - 19.19, - 12.08], 1000676753)"
  by (simp add: np_random_uniform_def lcg_def lcg_next_def draw_numeral)

lemma lcg_normal_run:
  "np_random_normal lcg 0 (variance_factor [- 18.74, - 19.19, - 12.08]) 3 1000676753
     = (Inr [0.4084, 0.30405, - 0.3396], 71666532)"
  by (simp add: np_random_normal_def np_broadcast_def variance_factor_def lcg_def lcg_next_def
      draw_numeral)

lemma trend_run:
  "generate_synthetic_scatter_data lcg (\<lambda>x y deg. Inr trend_fit) temperature_c cop_avg 3 g
     = (Inr ([- 18.74, - 19.19, - 12.08],
             [4735319 / 2100000, 2564303 / 1200000, 16549 / 9375],
             [3877679 / 2100000, 2199443 / 1200000, 78931 / 37500]), 71666532)"
proof -
  have fit: "(\<lambda>x y deg. Inr trend_fit) temperature_c cop_avg (3 :: nat) = (Inr trend_fit :: error + real list)"
    by simp
  have lo: "np_min temperature_c = Inr (- 20)" by (simp add: np_min_def temperature_c_def)
  have hi: "np_max temperature_c = Inr 10" by (simp add: np_max_def temperature_c_def)
  have "generate_synthetic_scatter_data lcg (\<lambda>x y deg. Inr trend_fit) temperature_c cop_avg 3 g
     = (Inr ([- 18.74, - 19.19, - 12.08],
             map (\<lambda>c. max c 0.5) (map2 (+) (map (poly1d trend_fit) [- 18.74, - 19.19, - 12.08])
                [0.4084, 0.30405, - 0.3396]),
             map (poly1d trend_fit) [- 18.74, - 19.19, - 12.08]), 71666532)"
    by (rule generate_run [where np_polyfit = "\<lambda>x y deg. Inr trend_fit",
          OF fit lo hi lcg_uniform_run lcg_normal_run])
  moreover have "map (poly1d trend_fit) [- 18.74, - 19.19, - 12.08]
      = [3877679 / 2100000, 2199443 / 1200000, 78931 / 37500]"
    by (simp add: poly1d_def trend_fit_def)
  ultimately show ?thesis by simp
qed

lemma floor_run:
  "generate_synthetic_scatter_data lcg (\<lambda>x y deg. Inr [0, 0, 0, 0.4])
       [- 20, - 10, 0, 10] [0.4, 0.4, 0.4, 0.4] 3 g
     = (Inr ([- 18.74, - 19.19, - 12.08], [0.8084, 0.70405, 0.5], [0.4, 0.4, 0.4]), 71666532)"
proof -
  have fit: "(\<lambda>x y deg. Inr [0, 0, 0, 0.4]) [- 20, - 10, 0, 10 :: real] [0.4, 0.4, 0.4, 0.4 :: real] (3 :: nat)
               = (Inr [0, 0, 0, 0.4] :: error + real list)"
    by simp
  have lo: "np_min [- 20, - 10, 0, 10] = Inr (- 20)" by (simp add: np_min_def)
  have hi: "np_max [- 20, - 10, 0, 10] = Inr 10" by (simp add: np_max_def)
  have "generate_synthetic_scatter_data lcg (\<lambda>x y deg. Inr [0, 0, 0, 0.4])
       [- 20, - 10, 0, 10] [0.4, 0.4, 0.4, 0.4] 3 g
     = (Inr ([- 18.74, - 19.19, - 12.08],
             map (\<lambda>c. max c 0.5) (map2 (+) (map (poly1d [0, 0, 0, 0.4]) [- 18.74, - 19.19, - 12.08])
                [0.4084, 0.30405, - 0.3396]),
             map (poly1d [0, 0, 0, 0.4]) [- 18.74, - 19.19, - 12.08]), 71666532)"
    by (rule generate_run [where np_polyfit = "\<lambda>x y deg. Inr [0, 0, 0, 0.4]",
          OF fit lo hi lcg_uniform_run lcg_normal_run])
  moreover have "map (poly1d [0, 0, 0, 0.4]) [- 18.74, - 19.19, - 12.08] = [0.4, 0.4, 0.4]"
    by (simp add: poly1d_def)
  ultimately show ?thesis by simp
qed


subsection \<open>Properties of the generator\<close>

text \<open>
  C2: whatever the generator, its state and \<open>num_points\<close>, every cop value that
  \<open>generate_synthetic_scatter_data\<close> returns is at least 0.5.
\<close>

theorem synthetic_cop_floor:
  assumes "generate_synthetic_scatter_data rng np_polyfit trend_x trend_y num_points g
             = (Inr (synthetic_temp, synthetic_cop, fitted), g')"
  shows "\<forall>c \<in> set synthetic_cop. 0.5 \<le> c"
proof -
  from generate_Inr [OF assms] obtain trend_poly noise where
    cop: "synthetic_cop = map (\<lambda>c. max c 0.5) (map2 (+) (map (poly1d trend_poly) synthetic_temp) noise)"
    by blast
  show ?thesis
  proof
    fix c assume "c \<in> set synthetic_cop"
    then obtain x :: real where "c = max x 0.5" unfolding cop by auto
    then show "0.5 \<le> c" by (auto simp: max_def)
  qed
qed

theorem synthetic_cop_floor_witness:
  "generate_synthetic_scatter_data lcg (\<lambda>x y deg. Inr [0, 0, 0, 0.4])
       [- 20, - 10, 0, 10] [0.4, 0.4, 0.4, 0.4] 3 (7 :: nat)
     = (Inr ([- 18.74, - 19.19, - 12.08], [0.8084, 0.70405, 0.5], [0.4, 0.4, 0.4]), 71666532)
   \<and> list_all (\<lambda>c. 0.5 \<le> c) [0.8084, 0.70405, 0.5 :: real]"
proof -
  note run = floor_run [of 7]
  from synthetic_cop_floor [OF run]
  have "list_all (\<lambda>c. 0.5 \<le> c) [0.8084, 0.70405, 0.5 :: real]"
    by (simp only: list_all_iff)
  with run show ?thesis by (rule conjI)
qed

text \<open>
  C10: the third sequence returned is, element by element, the fitted polynomial
  \<open>np.poly1d(np.polyfit(trend_x, trend_y, 3))\<close> evaluated at the first (temperature)
  sequence, without noise and without the floor; for four coefficients that is the cubic
  \<open>a t\<^sup>3 + b t\<^sup>2 + c t + d\<close>.
\<close>

theorem fitted_is_polynomial:
  assumes "generate_synthetic_scatter_data rng np_polyfit trend_x trend_y num_points g
             = (Inr (synthetic_temp, synthetic_cop, fitted), g')"
  shows "\<exists>trend_poly. np_polyfit trend_x trend_y 3 = Inr trend_poly
           \<and> length fitted = length synthetic_temp
           \<and> (\<forall>i < length synthetic_temp. fitted ! i = poly1d trend_poly (synthetic_temp ! i))
           \<and> (\<forall>a b c d. trend_poly = [a, b, c, d] \<longrightarrow>
                 (\<forall>i < length synthetic_temp.
                    fitted ! i = a * synthetic_temp ! i ^ 3 + b * synthetic_temp ! i ^ 2
                                 + c * synthetic_temp ! i + d))"
proof -
  from generate_Inr [OF assms] obtain trend_poly where
    fit: "np_polyfit trend_x trend_y 3 = Inr trend_poly"
    and fitted: "fitted = map (poly1d trend_poly) synthetic_temp"
    by blast
  have cubic: "poly1d [a, b, c, d] x = a * x ^ 3 + b * x ^ 2 + c * x + d" for a b c d x
    by (simp add: poly1d_def power2_eq_square power3_eq_cube algebra_simps)
  from fit fitted cubic show ?thesis by (intro exI [of _ trend_poly]) simp
qed

theorem fitted_is_polynomial_witness:
  "generate_synthetic_scatter_data lcg (\<lambda>x y deg. Inr trend_fit) temperature_c cop_avg 3 (7 :: nat)
     = (Inr ([- 18.74, - 19.19, - 12.08],
             [4735319 / 2100000, 2564303 / 1200000, 16549 / 9375],
             [3877679 / 2100000, 2199443 / 1200000, 78931 / 37500]), 71666532)
   \<and> [3877679 / 2100000, 2199443 / 1200000, 78931 / 37500] ! 0
        = 0 * (- 18.74) ^ 3 + 1 / 840 * (- 18.74) ^ 2 + 317 / 4200 * (- 18.74) + (199 / 70 :: real)
   \<and> [3877679 / 2100000, 2199443 / 1200000, 78931 / 37500] ! 2 = poly1d trend_fit (- 12.08)"
proof -
  note run = trend_run [of 7]
  from fitted_is_polynomial [OF run] obtain trend_poly where
    fit: "(Inr trend_fit :: error + real list) = Inr trend_poly"
    and at: "\<forall>i < length [- 18.74, - 19.19, - 12.08 :: real].
               [3877679 / 2100000, 2199443 / 1200000, 78931 / 37500] ! i
                 = poly1d trend_poly ([- 18.74, - 19.19, - 12.08] ! i)"
    and cubic: "\<forall>a b c d. trend_poly = [a, b, c, d] \<longrightarrow>
                 (\<forall>i < length [- 18.74, - 19.19, - 12.08 :: real].
                    [3877679 / 2100000, 2199443 / 1200000, 78931 / 37500] ! i
                      = a * [- 18.74, - 19.19, - 12.08] ! i ^ 3 + b * [- 18.74, - 19.19, - 12.08] ! i ^ 2
                        + c * [- 18.74, - 19.19, - 12.08] ! i + d)"
    by blast
  from fit have tp: "trend_poly = [0, 1 / 840, 317 / 4200, 199 / 70]"
    by (simp add: trend_fit_def)
  from cubic [rule_format, OF tp, of 0]
  have c0: "[3877679 / 2100000, 2199443 / 1200000, 78931 / 37500] ! 0
        = 0 * (- 18.74) ^ 3 + 1 / 840 * (- 18.74) ^ 2 + 317 / 4200 * (- 18.74) + (199 / 70 :: real)"
    by simp
  from at [rule_format, of 2] fit
  have c2: "[3877679 / 2100000, 2199443 / 1200000, 78931 / 37500] ! 2 = poly1d trend_fit (- 12.08)"
    by simp
  from run c0 c2 show ?thesis by (intro conjI)
qed

text \<open>
  C8: with a generator whose \<open>random_sample\<close> draws from \<open>[0, 1)\<close> and
  \<open>num_points \<ge> 1\<close>, whenever \<open>generate_synthetic_scatter_data\<close> returns, the
  temperature and cop sequences have exactly \<open>num_points\<close> elements and every temperature
  lies in \<open>[min(trend_x), max(trend_x)]\<close>; and it does return when \<open>trend_x\<close> is not
  empty, its minimum is at least -80 (so that no standard deviation is negative) and the
  fit succeeds.
\<close>

theorem generate_length_and_range:
  assumes unit: "\<forall>g. 0 \<le> fst (random_sample rng g) \<and> fst (random_sample rng g) < 1"
    and n: "1 \<le> num_points"
  shows "(\<forall>synthetic_temp synthetic_cop fitted g'.
            generate_synthetic_scatter_data rng np_polyfit trend_x trend_y num_points g
              = (Inr (synthetic_temp, synthetic_cop, fitted), g') \<longrightarrow>
            int (length synthetic_temp) = num_points \<and> int (length synthetic_cop) = num_points
          \<and> (\<forall>t \<in> set synthetic_temp. Min (set trend_x) \<le> t \<and> t \<le> Max (set trend_x)))
       \<and> (trend_x \<noteq> [] \<and> - 80 \<le> Min (set trend_x)
            \<and> (\<exists>trend_poly. np_polyfit trend_x trend_y 3 = Inr trend_poly) \<longrightarrow>
            (\<exists>synthetic_temp synthetic_cop fitted g'.
               generate_synthetic_scatter_data rng np_polyfit trend_x trend_y num_points g
                 = (Inr (synthetic_temp, synthetic_cop, fitted), g')))"
proof (intro conjI allI impI)
  fix synthetic_temp synthetic_cop fitted g'
  assume run: "generate_synthetic_scatter_data rng np_polyfit trend_x trend_y num_points g
              = (Inr (synthetic_temp, synthetic_cop, fitted), g')"
  from generate_Inr [OF run] obtain trend_poly lo hi g2 noise where
    lo: "np_min trend_x = Inr lo" and hi: "np_max trend_x = Inr hi"
    and uni: "np_random_uniform rng lo hi num_points (seed rng 42) = (Inr synthetic_temp, g2)"
    and nor: "np_random_normal rng 0 (variance_factor synthetic_temp) num_points g2 = (Inr noise, g')"
    and cop: "synthetic_cop = map (\<lambda>c. max c 0.5) (map2 (+) (map (poly1d trend_poly) synthetic_temp) noise)"
    by blast
  let ?us = "fst (draw (random_sample rng) (nat num_points) (seed rng 42))"
  have temp: "synthetic_temp = map (\<lambda>u. lo + (hi - lo) * u) ?us"
    using np_random_uniform_Inr [OF uni] by simp
  then show len_t: "int (length synthetic_temp) = num_points"
    using n by (simp add: draw_length)
  from np_random_normal_Inr [OF nor] obtain scale' where
    bc: "np_broadcast (variance_factor synthetic_temp) (nat num_points) = Inr scale'"
    and noise: "noise = map2 (\<lambda>s z. 0 + s * z) scale'
                  (fst (draw (standard_normal rng) (nat num_points) g2))"
    by blast
  have "length scale' = nat num_points"
    using bc by (auto simp: np_broadcast_def split: if_splits)
  then have "length noise = nat num_points"
    using noise by (simp add: draw_length)
  then show "int (length synthetic_cop) = num_points"
    using cop len_t n by simp
  have ne: "trend_x \<noteq> []" using lo by (auto simp: np_min_eq split: if_splits)
  have lo_eq: "lo = Min (set trend_x)" using lo ne by (simp add: np_min_eq)
  have hi_eq: "hi = Max (set trend_x)" using hi ne by (simp add: np_max_eq)
  have le: "lo \<le> hi" unfolding lo_eq hi_eq using ne by (rule Min_le_Max_list)
  have us: "list_all (\<lambda>u. 0 \<le> u \<and> u < 1) ?us"
    using unit by (intro draw_all) simp
  show "\<forall>t \<in> set synthetic_temp. Min (set trend_x) \<le> t \<and> t \<le> Max (set trend_x)"
  proof
    fix t assume "t \<in> set synthetic_temp"
    then obtain u where u: "u \<in> set ?us" and t: "t = lo + (hi - lo) * u"
      using temp by auto
    from us u have "0 \<le> u" "u < 1" by (auto simp: list_all_iff)
    from uniform_in_range [OF this le] show "Min (set trend_x) \<le> t \<and> t \<le> Max (set trend_x)"
      using t lo_eq hi_eq by simp
  qed
next
  assume pre: "trend_x \<noteq> [] \<and> - 80 \<le> Min (set trend_x)
            \<and> (\<exists>trend_poly. np_polyfit trend_x trend_y 3 = Inr trend_poly)"
  then obtain trend_poly where fit: "np_polyfit trend_x trend_y 3 = Inr trend_poly" by blast
  let ?lo = "Min (set trend_x)" and ?hi = "Max (set trend_x)"
  have lo: "np_min trend_x = Inr ?lo" and hi: "np_max trend_x = Inr ?hi"
    using pre by (simp_all add: np_min_eq np_max_eq)
  have le: "?lo \<le> ?hi" using pre by (intro Min_le_Max_list) simp
  obtain us g2 where dr: "draw (random_sample rng) (nat num_points) (seed rng 42) = (us, g2)"
    by (cases "draw (random_sample rng) (nat num_points) (seed rng 42)")
  let ?ts = "map (\<lambda>u. ?lo + (?hi - ?lo) * u) us"
  have uni: "np_random_uniform rng ?lo ?hi num_points (seed rng 42) = (Inr ?ts, g2)"
    using n dr by (simp add: np_random_uniform_def)
  have us: "list_all (\<lambda>u. 0 \<le> u \<and> u < 1) us"
    using draw_all [of "\<lambda>u. 0 \<le> u \<and> u < 1" "random_sample rng" "nat num_points" "seed rng 42"]
      unit dr by simp
  have len: "length us = nat num_points"
    using draw_length [of "random_sample rng" "nat num_points" "seed rng 42"] dr by simp
  have nonneg: "\<not> list_ex (\<lambda>s. s < 0) (variance_factor ?ts)"
  proof -
    have "0 \<le> 0.2 + 0.1 * ((?lo + (?hi - ?lo) * u + 20) / 30)" if "u \<in> set us" for u
    proof -
      from us that have "0 \<le> u" "u < 1" by (auto simp: list_all_iff)
      from uniform_in_range [OF this le] have "?lo \<le> ?lo + (?hi - ?lo) * u" by simp
      with pre have "- 80 \<le> ?lo + (?hi - ?lo) * u" by linarith
      then show ?thesis by (rule variance_factor_nonneg)
    qed
    then show ?thesis
      by (auto simp: variance_factor_def list_ex_iff not_less)
  qed
  obtain zs g3 where dz: "draw (standard_normal rng) (nat num_points) g2 = (zs, g3)"
    by (cases "draw (standard_normal rng) (nat num_points) g2")
  have nor: "np_random_normal rng 0 (variance_factor ?ts) num_points g2
               = (Inr (map2 (\<lambda>s z. 0 + s * z) (variance_factor ?ts) zs), g3)"
    using n nonneg dz len by (simp add: np_random_normal_def np_broadcast_def variance_factor_def)
  from generate_run [where np_polyfit = np_polyfit, OF fit lo hi uni nor]
  show "\<exists>synthetic_temp synthetic_cop fitted g'.
               generate_synthetic_scatter_data rng np_polyfit trend_x trend_y num_points g
                 = (Inr (synthetic_temp, synthetic_cop, fitted), g')"
    by blast
qed

theorem generate_length_and_range_witness:
  "generate_synthetic_scatter_data lcg (\<lambda>x y deg. Inr trend_fit) temperature_c cop_avg 3 (7 :: nat)
     = (Inr ([- 18.74, - 19.19, - 12.08],
             [4735319 / 2100000, 2564303 / 1200000, 16549 / 9375],
             [3877679 / 2100000, 2199443 / 1200000, 78931 / 37500]), 71666532)
   \<and> int (length [- 18.74, - 19.19, - 12.08 :: real]) = 3
   \<and> int (length [4735319 / 2100000, 2564303 / 1200000, 16549 / 9375 :: real]) = 3
   \<and> list_all (\<lambda>t. Min (set temperature_c) \<le> t \<and> t \<le> Max (set temperature_c))
        [- 18.74, - 19.19, - 12.08]
   \<and> (\<exists>synthetic_temp synthetic_cop fitted g'.
         generate_synthetic_scatter_data lcg (\<lambda>x y deg. Inr trend_fit) temperature_c cop_avg 3 (99 :: nat)
           = (Inr (synthetic_temp, synthetic_cop, fitted), g'))"
proof -
  have unit: "\<forall>g. 0 \<le> fst (random_sample lcg g) \<and> fst (random_sample lcg g) < 1"
    using lcg_unit_interval by blast
  have n: "(1 :: int) \<le> 3" by simp
  note run = trend_run [of 7]
  note thm7 = generate_length_and_range [OF unit n,
      of "\<lambda>x y deg. Inr trend_fit" temperature_c cop_avg 7]
  note thm99 = generate_length_and_range [OF unit n,
      of "\<lambda>x y deg. Inr trend_fit" temperature_c cop_avg 99]
  from thm7 [THEN conjunct1, rule_format, OF run]
  have len_t: "int (length [- 18.74, - 19.19, - 12.08 :: real]) = 3"
    and len_c: "int (length [4735319 / 2100000, 2564303 / 1200000, 16549 / 9375 :: real]) = 3"
    and rng: "\<forall>t \<in> set [- 18.74, - 19.19, - 12.08].
                Min (set temperature_c) \<le> t \<and> t \<le> Max (set temperature_c)"
    by blast+
  from rng have rng': "list_all (\<lambda>t. Min (set temperature_c) \<le> t \<and> t \<le> Max (set temperature_c))
        [- 18.74, - 19.19, - 12.08]"
    by (simp only: list_all_iff)
  have pre: "temperature_c \<noteq> [] \<and> - 80 \<le> Min (set temperature_c)
      \<and> (\<exists>trend_poly. (Inr trend_fit :: error + real list) = Inr trend_poly)"
    by (simp add: temperature_c_def)
  from thm99 [THEN conjunct2, rule_format, OF pre]
  have ex: "\<exists>synthetic_temp synthetic_cop fitted g'.
         generate_synthetic_scatter_data lcg (\<lambda>x y deg. Inr trend_fit) temperature_c cop_avg 3 (99 :: nat)
           = (Inr (synthetic_temp, synthetic_cop, fitted), g')" .
  from run len_t len_c rng' ex show ?thesis by (intro conjI)
qed



text \<open>
  C9: \<open>generate_synthetic_scatter_data\<close> has no seed argument and seeds the generator
  with 42 before it draws: its result does not depend on the state of the generator before
  the call, and when it returns, the temperatures are the uniform draws that start from
  the state \<open>seed 42\<close>, the generator is left in the state those draws end in, and a
  call from any other state returns the same.
\<close>

theorem generate_reseeds_42:
  "fst (generate_synthetic_scatter_data rng np_polyfit trend_x trend_y num_points g)
     = fst (generate_synthetic_scatter_data rng np_polyfit trend_x trend_y num_points h)
   \<and> (generate_synthetic_scatter_data rng np_polyfit trend_x trend_y num_points g
          = (Inr (synthetic_temp, synthetic_cop, fitted), g') \<longrightarrow>
        (\<exists>lo hi. np_min trend_x = Inr lo \<and> np_max trend_x = Inr hi
           \<and> synthetic_temp = map (\<lambda>u. lo + (hi - lo) * u)
                 (fst (draw (random_sample rng) (nat num_points) (seed rng 42))))
        \<and> g' = snd (draw (standard_normal rng) (nat num_points)
                   (snd (draw (random_sample rng) (nat num_points) (seed rng 42))))
        \<and> generate_synthetic_scatter_data rng np_polyfit trend_x trend_y num_points h
             = (Inr (synthetic_temp, synthetic_cop, fitted), g'))"
proof (intro conjI impI)
  show "fst (generate_synthetic_scatter_data rng np_polyfit trend_x trend_y num_points g)
     = fst (generate_synthetic_scatter_data rng np_polyfit trend_x trend_y num_points h)"
    by (rule generate_state_irrelevant)
next
  assume run: "generate_synthetic_scatter_data rng np_polyfit trend_x trend_y num_points g
          = (Inr (synthetic_temp, synthetic_cop, fitted), g')"
  from generate_Inr [OF run] obtain trend_poly lo hi g2 noise where
    fit: "np_polyfit trend_x trend_y 3 = Inr trend_poly"
    and lo: "np_min trend_x = Inr lo" and hi: "np_max trend_x = Inr hi"
    and uni: "np_random_uniform rng lo hi num_points (seed rng 42) = (Inr synthetic_temp, g2)"
    and nor: "np_random_normal rng 0 (variance_factor synthetic_temp) num_points g2 = (Inr noise, g')"
    and cop: "synthetic_cop = map (\<lambda>c. max c 0.5) (map2 (+) (map (poly1d trend_poly) synthetic_temp) noise)"
    and fitted: "fitted = map (poly1d trend_poly) synthetic_temp"
    by blast
  from np_random_uniform_Inr [OF uni]
  have temp: "synthetic_temp = map (\<lambda>u. lo + (hi - lo) * u)
                 (fst (draw (random_sample rng) (nat num_points) (seed rng 42)))"
    and g2: "g2 = snd (draw (random_sample rng) (nat num_points) (seed rng 42))"
    by simp_all
  from lo hi temp
  show "\<exists>lo hi. np_min trend_x = Inr lo \<and> np_max trend_x = Inr hi
           \<and> synthetic_temp = map (\<lambda>u. lo + (hi - lo) * u)
                 (fst (draw (random_sample rng) (nat num_points) (seed rng 42)))"
    by blast
  from np_random_normal_Inr [OF nor] g2
  show "g' = snd (draw (standard_normal rng) (nat num_points)
                   (snd (draw (random_sample rng) (nat num_points) (seed rng 42))))"
    by simp
  from generate_run [where np_polyfit = np_polyfit and g = h, OF fit lo hi uni nor] cop fitted
  show "generate_synthetic_scatter_data rng np_polyfit trend_x trend_y num_points h
             = (Inr (synthetic_temp, synthetic_cop, fitted), g')"
    by simp
qed

theorem generate_reseeds_42_witness:
  "fst (generate_synthetic_scatter_data lcg (\<lambda>x y deg. Inr trend_fit) temperature_c cop_avg 3 (7 :: nat))
     = fst (generate_synthetic_scatter_data lcg (\<lambda>x y deg. Inr trend_fit) temperature_c cop_avg 3 99)
   \<and> generate_synthetic_scatter_data lcg (\<lambda>x y deg. Inr trend_fit) temperature_c cop_avg 3 99
       = (Inr ([- 18.74, - 19.19, - 12.08],
               [4735319 / 2100000, 2564303 / 1200000, 16549 / 9375],
               [3877679 / 2100000, 2199443 / 1200000, 78931 / 37500]), 71666532)
   \<and> [- 18.74, - 19.19, - 12.08]
       = map (\<lambda>u. - 20 + (10 - (- 20)) * u) (fst (draw (random_sample lcg) 3 (seed lcg 42)))
   \<and> 71666532 = snd (draw (standard_normal lcg) 3 (snd (draw (random_sample lcg) 3 (seed lcg 42))))"
proof -
  note inst = generate_reseeds_42 [of lcg "\<lambda>x y deg. Inr trend_fit" temperature_c cop_avg 3 7 99
      "[- 18.74, - 19.19, - 12.08]" "[4735319 / 2100000, 2564303 / 1200000, 16549 / 9375]"
      "[3877679 / 2100000, 2199443 / 1200000, 78931 / 37500]" 71666532]
  note rest = inst [THEN conjunct2, rule_format, OF trend_run [of 7]]
  from rest [THEN conjunct1]
  obtain lo hi where lo: "np_min temperature_c = Inr lo" and hi: "np_max temperature_c = Inr hi"
    and temp: "[- 18.74, - 19.19, - 12.08]
       = map (\<lambda>u. lo + (hi - lo) * u) (fst (draw (random_sample lcg) (nat 3) (seed lcg 42)))"
    by (elim exE conjE)
  from lo have "lo = - 20" by (simp add: np_min_def temperature_c_def)
  moreover from hi have "hi = 10" by (simp add: np_max_def temperature_c_def)
  ultimately have t: "[- 18.74, - 19.19, - 12.08]
       = map (\<lambda>u. - 20 + (10 - (- 20)) * u) (fst (draw (random_sample lcg) 3 (seed lcg 42)))"
    using temp by simp
  from rest [THEN conjunct2, THEN conjunct1]
  have st: "71666532 = snd (draw (standard_normal lcg) 3 (snd (draw (random_sample lcg) 3 (seed lcg 42))))"
    by simp
  from rest [THEN conjunct2, THEN conjunct2] have run99: "generate_synthetic_scatter_data lcg (\<lambda>x y deg. Inr trend_fit) temperature_c cop_avg 3 99
       = (Inr ([- 18.74, - 19.19, - 12.08],
               [4735319 / 2100000, 2564303 / 1200000, 16549 / 9375],
               [3877679 / 2100000, 2199443 / 1200000, 78931 / 37500]), 71666532)" .
  from inst [THEN conjunct1] run99 t st show ?thesis by (intro conjI)
qed

text \<open>
  C7: different seeds do not produce different outputs. The only seed a caller can choose
  is the one it gives the generator before the call, and the function replaces it: with
  the sample generator, the states of seed 1 and seed 2 differ and so do their draws, but
  the two calls return the same sequences.
\<close>

theorem caller_seed_ignored:
  "seed lcg 1 \<noteq> seed lcg 2
   \<and> fst (draw (random_sample lcg) 3 (seed lcg 1)) \<noteq> fst (draw (random_sample lcg) 3 (seed lcg 2))
   \<and> fst (generate_synthetic_scatter_data lcg (\<lambda>x y deg. Inr trend_fit) temperature_c cop_avg 3
            (seed lcg 1))
       = Inr ([- 18.74, - 19.19, - 12.08],
              [4735319 / 2100000, 2564303 / 1200000, 16549 / 9375],
              [3877679 / 2100000, 2199443 / 1200000, 78931 / 37500])
   \<and> fst (generate_synthetic_scatter_data lcg (\<lambda>x y deg. Inr trend_fit) temperature_c cop_avg 3
            (seed lcg 2))
       = Inr ([- 18.74, - 19.19, - 12.08],
              [4735319 / 2100000, 2564303 / 1200000, 16549 / 9375],
              [3877679 / 2100000, 2199443 / 1200000, 78931 / 37500])"
proof (intro conjI)
  show "seed lcg 1 \<noteq> seed lcg 2" by (simp add: lcg_def)
  show "fst (draw (random_sample lcg) 3 (seed lcg 1)) \<noteq> fst (draw (random_sample lcg) 3 (seed lcg 2))"
    by (simp add: lcg_def lcg_next_def draw_numeral)
qed (simp_all only: trend_run fst_conv)

text \<open>
  C7, as the code has it: called twice with identical arguments, the second call right
  after the first, \<open>generate_synthetic_scatter_data\<close> produces identical results; and
  so do two calls made after seeding the generator with any two seeds.
\<close>

theorem generate_repeatable:
  "fst (generate_synthetic_scatter_data rng np_polyfit trend_x trend_y num_points g)
     = fst (generate_synthetic_scatter_data rng np_polyfit trend_x trend_y num_points
              (snd (generate_synthetic_scatter_data rng np_polyfit trend_x trend_y num_points g)))
   \<and> fst (generate_synthetic_scatter_data rng np_polyfit trend_x trend_y num_points (seed rng s1))
     = fst (generate_synthetic_scatter_data rng np_polyfit trend_x trend_y num_points (seed rng s2))"
  by (intro conjI generate_state_irrelevant)

end
